theory Spec2Isabelle
  imports Main "HOL-Library.Word"
begin

unbundle bit_operations_syntax

section \<open>Data model\<close>

subsection \<open>JavaScript values\<close>

text \<open>
  A value produced by \<^verbatim>\<open>JSON.parse\<close>. An object is the list of its own properties
  (keys distinct, as a parsed object has them). A JavaScript value that may be
  \<^verbatim>\<open>undefined\<close> is a \<open>json option\<close>, with \<open>None\<close> for \<^verbatim>\<open>undefined\<close>.
  Numbers are the integers; strings are lists of characters.
\<close>

datatype json =
    JNull
  | JBool bool
  | JNum int
  | JStr string
  | JArr "json list"
  | JObj "(string \<times> json) list"

text \<open>Everything the code throws, and everything a library call of the code throws.\<close>

datatype error =
    TypeError
  | InvalidNsecFormat
  | InvalidPrivateKeyLength nat
  | WebCryptoUnavailable
  | InvalidCiphertextFormat
  | InvalidIVLength nat
  | EmptyCiphertext
  | UnknownEncryptionFormat
  | LibraryError

text \<open>JavaScript's \<^verbatim>\<open>ToBoolean\<close>.\<close>

fun truthy :: "json option \<Rightarrow> bool" where
  "truthy None = False"
| "truthy (Some JNull) = False"
| "truthy (Some (JBool b)) = b"
| "truthy (Some (JNum n)) = (n \<noteq> 0)"
| "truthy (Some (JStr s)) = (s \<noteq> [])"
| "truthy (Some (JArr xs)) = True"
| "truthy (Some (JObj kvs)) = True"

text \<open>
  \<^verbatim>\<open>v.name\<close> for a parsed value \<open>v\<close> other than \<^verbatim>\<open>null\<close> and a name that no
  prototype defines (\<^verbatim>\<open>result\<close>, \<^verbatim>\<open>error\<close>, \<^verbatim>\<open>id\<close>, \<^verbatim>\<open>method\<close>, \<^verbatim>\<open>message\<close>,
  \<^verbatim>\<open>ciphertext\<close>, \<^verbatim>\<open>iv\<close>): the own property of an object, \<^verbatim>\<open>undefined\<close> on
  anything else. On \<^verbatim>\<open>null\<close> the access throws a TypeError, which every caller
  below checks first.
\<close>

fun field :: "json \<Rightarrow> string \<Rightarrow> json option" where
  "field (JObj kvs) name = map_of kvs name"
| "field v name = None"

text \<open>The operators \<^verbatim>\<open>||\<close>, \<^verbatim>\<open>&&\<close>, \<^verbatim>\<open>!\<close>, \<^verbatim>\<open>=== "literal"\<close> and \<^verbatim>\<open>!== undefined\<close> on values.\<close>

definition js_or :: "json option \<Rightarrow> json option \<Rightarrow> json option" where
  "js_or a b = (if truthy a then a else b)"

definition js_and :: "json option \<Rightarrow> json option \<Rightarrow> json option" where
  "js_and a b = (if truthy a then b else a)"

definition js_not :: "json option \<Rightarrow> json option" where
  "js_not a = Some (JBool (\<not> truthy a))"

definition strict_eq_string :: "json option \<Rightarrow> string \<Rightarrow> json option" where
  "strict_eq_string a s = Some (JBool (a = Some (JStr s)))"

definition not_undefined :: "json option \<Rightarrow> json option" where
  "not_undefined a = Some (JBool (a \<noteq> None))"

text \<open>\<^verbatim>\<open>xs[i]\<close> on an array: \<^verbatim>\<open>undefined\<close> out of range.\<close>

definition js_index :: "'a list \<Rightarrow> nat \<Rightarrow> 'a option" where
  "js_index xs i = (if i < length xs then Some (xs ! i) else None)"

subsection \<open>Events and relay messages\<close>

text \<open>The interface \<^verbatim>\<open>NostrEvent\<close>; \<^verbatim>\<open>id\<close> is the field \<open>event_id\<close>.\<close>

record NostrEvent =
  event_id :: string
  pubkey :: string
  created_at :: int
  kind :: int
  tags :: "string list list"
  content :: string
  sig :: string

text \<open>
  A message of a relay after \<^verbatim>\<open>JSON.parse\<close>, typed as the wire protocol has it:
  \<^verbatim>\<open>["EVENT", subId, event]\<close>, \<^verbatim>\<open>["EOSE", subId]\<close>, and anything else (an
  acknowledgement, a notice, or text that does not parse, which every handler ignores).
\<close>

datatype relay_msg = EVENT NostrEvent | EOSE | OTHER

section \<open>Remote signer pairing: the connect acknowledgement (startNostrConnect)\<close>

text \<open>
  The value of \<^verbatim>\<open>isConnectResponse\<close> for the session secret and the parsed response.
  A \<^verbatim>\<open>null\<close> response throws on the first property access.
\<close>

definition isConnectResponse :: "string \<Rightarrow> json \<Rightarrow> error + json option" where
  "isConnectResponse secret response =
     (if response = JNull then Inl TypeError
      else Inr
        (js_or (strict_eq_string (field response ''result'') ''ack'')
        (js_or (strict_eq_string (field response ''result'') secret)
        (js_or (strict_eq_string (field response ''method'') ''connect'')
        (js_or (js_and (field response ''result'') (js_not (field response ''error'')))
               (js_and (field response ''id'') (not_undefined (field response ''result''))))))))"

text \<open>
  \<^verbatim>\<open>if (isConnectResponse)\<close>: the branch that pairs. A thrown error is caught by the
  handler and the event is skipped.
\<close>

definition connect_acknowledged :: "string \<Rightarrow> json \<Rightarrow> bool" where
  "connect_acknowledged secret response =
     (case isConnectResponse secret response of Inl e \<Rightarrow> False | Inr v \<Rightarrow> truthy v)"

text \<open>
  The classifier in the specification's words, for comparison: a field is present
  when the response has it, absent when it has not.
\<close>

definition spec_connect_ack :: "string \<Rightarrow> json \<Rightarrow> bool" where
  "spec_connect_ack secret response =
     (field response ''result'' = Some (JStr ''ack'')
      \<or> field response ''result'' = Some (JStr secret)
      \<or> field response ''method'' = Some (JStr ''connect'')
      \<or> (field response ''result'' \<noteq> None \<and> field response ''error'' = None)
      \<or> (field response ''id'' \<noteq> None \<and> field response ''result'' \<noteq> None))"

section \<open>Contact lists: the follow count (useProfileData)\<close>

text \<open>The filter \<^verbatim>\<open>tag[0] === "p" && tag[1]\<close> on a tag of type \<^verbatim>\<open>string[]\<close>.\<close>

definition is_follow_tag :: "string list \<Rightarrow> bool" where
  "is_follow_tag tag =
     (js_index tag 0 = Some ''p''
      \<and> (case js_index tag 1 of None \<Rightarrow> False | Some s \<Rightarrow> s \<noteq> []))"




text \<open>The count in the specification's words: the tags whose first element is \<^verbatim>\<open>"p"\<close>.\<close>

definition spec_follow_count :: "string list list \<Rightarrow> nat" where
  "spec_follow_count ts = length (filter (\<lambda>tag. tag \<noteq> [] \<and> hd tag = ''p'') ts)"

section \<open>Notes query (fetchNotesStreaming)\<close>

text \<open>The constants of the hook.\<close>

definition RELAYS :: "string list" where
  "RELAYS = [''wss://relay.damus.io'', ''wss://relay.nostr.band'', ''wss://nos.lol'',
             ''wss://relay.snort.social'']"

definition NOTES_PER_PAGE :: nat where
  "NOTES_PER_PAGE = 20"

text \<open>\<^verbatim>\<open>WebSocket.readyState\<close>.\<close>

datatype ready_state = CONNECTING | OPEN | CLOSING | CLOSED

text \<open>
  The variables one call of \<^verbatim>\<open>fetchNotesStreaming\<close> closes over. \<^verbatim>\<open>seenIds\<close> is a
  JavaScript \<^verbatim>\<open>Set\<close>, kept in insertion order; \<open>timeoutId\<close> and \<open>earlyTimeoutId\<close>
  say whether the timer is pending (set and neither fired nor cleared); \<open>sockets\<close> is
  the ready state of the socket of each relay and \<open>activeConnections\<close> the sockets
  the call pushed on \<^verbatim>\<open>activeConnectionsRef\<close>; \<open>onNote_calls\<close> and \<open>onComplete_calls\<close>
  record the calls of the two callbacks.
\<close>

record notes_query =
  seenIds :: "string list"
  completedRelays :: nat
  hasReceivedAny :: bool
  timeoutId :: bool
  earlyTimeoutId :: bool
  sockets :: "ready_state list"
  activeConnections :: "nat list"
  onNote_calls :: "NostrEvent list"
  onComplete_calls :: nat

text \<open>\<^verbatim>\<open>ws.close()\<close>: a socket that is connecting or open starts closing.\<close>

definition ws_close :: "nat \<Rightarrow> ready_state list \<Rightarrow> ready_state list" where
  "ws_close r ss =
     (if r < length ss \<and> (ss ! r = CONNECTING \<or> ss ! r = OPEN) then ss[r := CLOSING] else ss)"

definition closeConnections :: "notes_query \<Rightarrow> notes_query" where
  "closeConnections q =
     q\<lparr>sockets := fold ws_close (activeConnections q) (sockets q), activeConnections := []\<rparr>"

definition onComplete :: "notes_query \<Rightarrow> notes_query" where
  "onComplete q = q\<lparr>onComplete_calls := Suc (onComplete_calls q)\<rparr>"

definition checkComplete :: "notes_query \<Rightarrow> notes_query" where
  "checkComplete q =
     (if length RELAYS \<le> completedRelays q
      then onComplete (q\<lparr>timeoutId := False, earlyTimeoutId := False\<rparr>)
      else q)"

text \<open>
  The state when \<^verbatim>\<open>fetchNotesStreaming\<close> returns: the hard timer is set, and for
  each relay either the socket is connecting or \<^verbatim>\<open>new WebSocket\<close> threw (\<open>threw r\<close>)
  and the \<^verbatim>\<open>catch\<close> counted the relay as completed.
\<close>

definition fetchNotesStreaming :: "(nat \<Rightarrow> bool) \<Rightarrow> notes_query" where
  "fetchNotesStreaming threw =
     \<lparr>seenIds = [],
      completedRelays = length (filter threw [0..<length RELAYS]),
      hasReceivedAny = False,
      timeoutId = True,
      earlyTimeoutId = False,
      sockets = map (\<lambda>r. if threw r then CLOSED else CONNECTING) [0..<length RELAYS],
      activeConnections = filter (\<lambda>r. \<not> threw r) [0..<length RELAYS],
      onNote_calls = [],
      onComplete_calls = 0\<rparr>"

text \<open>
  What the event loop then runs: a handler of the socket of relay \<open>r\<close>, or the
  callback of one of the two timers.
\<close>

datatype notes_event =
    WsOpen nat
  | WsMessage nat relay_msg
  | WsError nat
  | WsClose nat
  | TimeoutFired
  | EarlyTimeoutFired

text \<open>
  One handler run. A timer that is not pending has no callback to run, so its event
  changes nothing.
\<close>

fun notes_step :: "notes_query \<Rightarrow> notes_event \<Rightarrow> notes_query" where
  "notes_step q (WsOpen r) = q\<lparr>sockets := (sockets q)[r := OPEN]\<rparr>"
| "notes_step q (WsMessage r (EVENT ev)) =
     (if kind ev = 1 \<and> event_id ev \<notin> set (seenIds q)
      then (let q1 = q\<lparr>seenIds := seenIds q @ [event_id ev],
                        onNote_calls := onNote_calls q @ [ev]\<rparr>
            in if \<not> hasReceivedAny q1
               then q1\<lparr>hasReceivedAny := True, earlyTimeoutId := True\<rparr>
               else q1)
      else q)"
| "notes_step q (WsMessage r EOSE) = q\<lparr>sockets := ws_close r (sockets q)\<rparr>"
| "notes_step q (WsMessage r OTHER) = q"
| "notes_step q (WsError r) =
     checkComplete (q\<lparr>completedRelays := Suc (completedRelays q)\<rparr>)"
| "notes_step q (WsClose r) =
     checkComplete (q\<lparr>completedRelays := Suc (completedRelays q),
                      sockets := (sockets q)[r := CLOSED]\<rparr>)"
| "notes_step q TimeoutFired =
     (if timeoutId q then onComplete (closeConnections (q\<lparr>timeoutId := False\<rparr>)) else q)"
| "notes_step q EarlyTimeoutFired =
     (if earlyTimeoutId q
      then (let q1 = q\<lparr>earlyTimeoutId := False\<rparr>
            in if NOTES_PER_PAGE \<le> 2 * length (seenIds q1)
               then onComplete (closeConnections (q1\<lparr>timeoutId := False\<rparr>))
               else q1)
      else q)"

definition notes_run :: "notes_query \<Rightarrow> notes_event list \<Rightarrow> notes_query" where
  "notes_run = foldl notes_step"

text \<open>
  The events the browser can deliver in a state: a socket opens once, delivers
  messages while open, and reports an error or its close until it is closed; a timer
  fires while pending.
\<close>

fun notes_enabled :: "notes_query \<Rightarrow> notes_event \<Rightarrow> bool" where
  "notes_enabled q (WsOpen r) = (r < length (sockets q) \<and> sockets q ! r = CONNECTING)"
| "notes_enabled q (WsMessage r m) = (r < length (sockets q) \<and> sockets q ! r = OPEN)"
| "notes_enabled q (WsError r) = (r < length (sockets q) \<and> sockets q ! r \<noteq> CLOSED)"
| "notes_enabled q (WsClose r) = (r < length (sockets q) \<and> sockets q ! r \<noteq> CLOSED)"
| "notes_enabled q TimeoutFired = timeoutId q"
| "notes_enabled q EarlyTimeoutFired = earlyTimeoutId q"

fun notes_feasible :: "notes_query \<Rightarrow> notes_event list \<Rightarrow> bool" where
  "notes_feasible q [] = True"
| "notes_feasible q (e # es) = (notes_enabled q e \<and> notes_feasible (notes_step q e) es)"

text \<open>The kind-1 events a run receives, in order of arrival, over all relays.\<close>

fun text_notes :: "notes_event list \<Rightarrow> NostrEvent list" where
  "text_notes [] = []"
| "text_notes (WsMessage r (EVENT ev) # es) =
     (if kind ev = 1 then ev # text_notes es else text_notes es)"
| "text_notes (e # es) = text_notes es"

text \<open>
  The specification's delivery rule: the first event with a given id is kept, every
  later one with that id is dropped.
\<close>

fun first_by_id :: "NostrEvent list \<Rightarrow> NostrEvent list" where
  "first_by_id [] = []"
| "first_by_id (n # ns) = n # first_by_id (filter (\<lambda>m. event_id m \<noteq> event_id n) ns)"

text \<open>The number of error and close notifications in a run.\<close>

fun closings :: "notes_event list \<Rightarrow> nat" where
  "closings [] = 0"
| "closings (WsError r # es) = Suc (closings es)"
| "closings (WsClose r # es) = Suc (closings es)"
| "closings (e # es) = closings es"

text \<open>
  The handler runs that invoke \<^verbatim>\<open>onComplete\<close>, each read off its handler: the callback
  of the hard timer, which runs only while that timer is pending; the callback of the
  early-settle timer, running while pending, with \<^verbatim>\<open>seenIds.size >= NOTES_PER_PAGE / 2\<close>;
  and an error or close notification that brings \<^verbatim>\<open>completedRelays\<close> to
  \<^verbatim>\<open>RELAYS.length\<close> or more. Whether \<^verbatim>\<open>onComplete\<close> was invoked before is not part of any
  of them.
\<close>

fun completes :: "notes_query \<Rightarrow> notes_event \<Rightarrow> bool" where
  "completes q TimeoutFired = timeoutId q"
| "completes q EarlyTimeoutFired =
     (earlyTimeoutId q \<and> NOTES_PER_PAGE \<le> 2 * length (seenIds q))"
| "completes q (WsError r) = (length RELAYS \<le> Suc (completedRelays q))"
| "completes q (WsClose r) = (length RELAYS \<le> Suc (completedRelays q))"
| "completes q (WsOpen r) = False"
| "completes q (WsMessage r m) = False"

text \<open>The number of such handler runs in a run that starts in state \<open>q\<close>.\<close>

fun completions :: "notes_query \<Rightarrow> notes_event list \<Rightarrow> nat" where
  "completions q [] = 0"
| "completions q (e # es) =
     (if completes q e then 1 else 0) + completions (notes_step q e) es"

text \<open>
  Of \<open>m\<close> error or close notifications that follow \<open>c\<close> counted relays, the number
  that find all relays counted: the \<open>j\<close>-th with \<^verbatim>\<open>RELAYS.length\<close> \<open>\<le> c + j\<close>.
\<close>

definition close_fires :: "nat \<Rightarrow> nat \<Rightarrow> nat" where
  "close_fires c m = length (filter (\<lambda>j. length RELAYS \<le> c + j) [1..<Suc m])"

text \<open>The timer callbacks that can still run: pending timers, and the early timer not yet set.\<close>

definition pending_timers :: "notes_query \<Rightarrow> nat" where
  "pending_timers q =
     (if timeoutId q then 1 else 0) + (if earlyTimeoutId q then 1 else 0)
       + (if hasReceivedAny q then 0 else 1)"


section \<open>Key codec: bech32 (bech32ToHex, hexToNpub)\<close>

text \<open>
  The strings of this section are JavaScript strings as they are: sequences of UTF-16
  code units, each a number. \<open>ascii\<close> gives the code units of a string of ASCII
  characters, for the literals of the code.
\<close>

type_synonym js_string = "nat list"

definition ascii :: "string \<Rightarrow> js_string" where
  "ascii s = map of_char s"

text \<open>The bech32 alphabet, as both functions declare it.\<close>

definition ALPHABET :: js_string where
  "ALPHABET = ascii ''qpzry9x8gf2tvdw0s3jn54khce6mua7l''"

datatype key_type = Nsec | Npub

text \<open>\<^verbatim>\<open>indexOf\<close>, with \<open>None\<close> for \<^verbatim>\<open>-1\<close>.\<close>

fun indexOf :: "'a list \<Rightarrow> 'a \<Rightarrow> nat option" where
  "indexOf [] c = None"
| "indexOf (x # xs) c = (if x = c then Some 0 else map_option Suc (indexOf xs c))"

text \<open>
  The first loop of \<^verbatim>\<open>bech32ToHex\<close>: the index of every character in the alphabet;
  \<open>None\<close> when the loop returns \<^verbatim>\<open>null\<close> on a character outside the alphabet. (The
  loop runs over code points; a code point of two code units is not in the alphabet,
  and neither is either of its units.)
\<close>

fun alphabet_values :: "js_string \<Rightarrow> nat list option" where
  "alphabet_values [] = Some []"
| "alphabet_values (c # cs) =
     (case indexOf ALPHABET c of
        None \<Rightarrow> None
      | Some idx \<Rightarrow> map_option ((#) idx) (alphabet_values cs))"

text \<open>
  The second loop, on JavaScript numbers under the 32-bit operators: \<^verbatim>\<open><<\<close> is
  \<open>push_bit\<close> on a 32-bit word, \<^verbatim>\<open>>>\<close> is the arithmetic shift \<open>signed_drop_bit\<close>
  (its count taken modulo 32). \<open>take_bytes\<close> is the inner \<^verbatim>\<open>while (bits >= 8)\<close>: the bytes
  it pushes and the bits left.
\<close>

function take_bytes :: "32 word \<Rightarrow> nat \<Rightarrow> nat list \<times> nat" where
  "take_bytes acc bits =
     (if 8 \<le> bits
      then (let bits' = bits - 8;
                byte = unat (signed_drop_bit (bits' mod 32) acc AND 0xff);
                (bytes, rest) = take_bytes acc bits'
            in (byte # bytes, rest))
      else ([], bits))"
  by pat_completeness auto
termination
  by (relation "measure (\<lambda>(acc, bits). bits)") auto

fun to_bytes :: "32 word \<Rightarrow> nat \<Rightarrow> nat list \<Rightarrow> nat list" where
  "to_bytes acc bits [] = []"
| "to_bytes acc bits (v # vs) =
     (let acc' = push_bit 5 acc OR of_nat v;
          (bytes, bits') = take_bytes acc' (bits + 5)
      in bytes @ to_bytes acc' bits' vs)"

text \<open>\<^verbatim>\<open>b.toString(16).padStart(2, "0")\<close> for a byte \<open>b < 256\<close>.\<close>

definition hex_digit :: "nat \<Rightarrow> nat" where
  "hex_digit n = ascii ''0123456789abcdef'' ! n"

definition byte_hex :: "nat \<Rightarrow> js_string" where
  "byte_hex b = [hex_digit (b div 16), hex_digit (b mod 16)]"

text \<open>
  \<^verbatim>\<open>bech32ToHex\<close>: \<open>None\<close> is \<^verbatim>\<open>null\<close>. \<open>toLowerCase\<close> is the platform's
  \<^verbatim>\<open>String.prototype.toLowerCase\<close>, a parameter. The character after the prefix is
  skipped unread; every later character is looked up in the alphabet; the last six
  values (the checksum) are then dropped by \<^verbatim>\<open>values.slice(0, -6)\<close>.
\<close>

definition bech32ToHex :: "(js_string \<Rightarrow> js_string) \<Rightarrow> js_string \<Rightarrow> (key_type \<times> js_string) option" where
  "bech32ToHex toLowerCase bech32 =
     (let lower = toLowerCase bech32;
          prefix = (if take 4 lower = ascii ''nsec'' then Some Nsec
                    else if take 4 lower = ascii ''npub'' then Some Npub else None)
      in case prefix of
           None \<Rightarrow> None
         | Some t \<Rightarrow>
             (case alphabet_values (drop 5 lower) of
                None \<Rightarrow> None
              | Some vals \<Rightarrow>
                  Some (t, concat (map byte_hex (to_bytes 0 0 (take (length vals - 6) vals))))))"

text \<open>
  The value of \<^verbatim>\<open>toLowerCase\<close> on a string of ASCII characters: A to Z become a to z.
  It stands for the platform's function only at such strings.
\<close>

definition toLowerCase_ascii :: "js_string \<Rightarrow> js_string" where
  "toLowerCase_ascii s = map (\<lambda>u. if 65 \<le> u \<and> u \<le> 90 then u + 32 else u) s"

subsection \<open>hexToNpub\<close>

text \<open>
  \<^verbatim>\<open>parseInt(s, 16)\<close>: leading white space, a sign and a \<^verbatim>\<open>0x\<close> prefix are skipped and
  the longest run of hexadecimal digits is read; \<open>None\<close> is \<^verbatim>\<open>NaN\<close>, which the bit
  operators read as 0.
\<close>

definition is_hex_digit :: "nat \<Rightarrow> bool" where
  "is_hex_digit u = (u \<in> set (ascii ''0123456789abcdefABCDEF''))"

definition hex_value :: "nat \<Rightarrow> int" where
  "hex_value u =
     (if 48 \<le> u \<and> u \<le> 57 then int u - 48
      else if 97 \<le> u \<and> u \<le> 102 then int u - 87
      else int u - 55)"

definition is_js_whitespace :: "nat \<Rightarrow> bool" where
  "is_js_whitespace u =
     (u \<in> {9, 10, 11, 12, 13, 32, 160, 0x1680, 0x2028, 0x2029, 0x202F, 0x205F, 0x3000, 0xFEFF}
      \<or> (0x2000 \<le> u \<and> u \<le> 0x200A))"

definition parseInt16 :: "js_string \<Rightarrow> int option" where
  "parseInt16 s =
     (let s1 = dropWhile is_js_whitespace s;
          negative = (take 1 s1 = ascii ''-'');
          s2 = (if take 1 s1 = ascii ''-'' \<or> take 1 s1 = ascii ''+'' then drop 1 s1 else s1);
          s3 = (if take 2 s2 = ascii ''0x'' \<or> take 2 s2 = ascii ''0X'' then drop 2 s2 else s2);
          digits = takeWhile is_hex_digit s3
      in if digits = [] then None
         else (let v = foldl (\<lambda>a c. 16 * a + hex_value c) 0 digits
               in Some (if negative then - v else v)))"

text \<open>The loop over \<^verbatim>\<open>hex.substr(i, 2)\<close>.\<close>

fun hex_pairs :: "js_string \<Rightarrow> int option list" where
  "hex_pairs [] = []"
| "hex_pairs [a] = [parseInt16 [a]]"
| "hex_pairs (a # b # cs) = parseInt16 [a, b] # hex_pairs cs"

definition to_int32 :: "int option \<Rightarrow> 32 word" where
  "to_int32 n = (case n of None \<Rightarrow> 0 | Some v \<Rightarrow> word_of_int v)"

text \<open>The regrouping of 8-bit bytes into 5-bit values, with its inner \<^verbatim>\<open>while (bits >= 5)\<close>.\<close>

function take_values :: "32 word \<Rightarrow> nat \<Rightarrow> nat list \<times> nat" where
  "take_values acc bits =
     (if 5 \<le> bits
      then (let bits' = bits - 5;
                v = unat (signed_drop_bit (bits' mod 32) acc AND 0x1f);
                (vals, rest) = take_values acc bits'
            in (v # vals, rest))
      else ([], bits))"
  by pat_completeness auto
termination
  by (relation "measure (\<lambda>(acc, bits). bits)") auto

fun to_values :: "32 word \<Rightarrow> nat \<Rightarrow> int option list \<Rightarrow> nat list" where
  "to_values acc bits [] =
     (if 0 < bits then [unat (push_bit ((5 - bits) mod 32) acc AND 0x1f)] else [])"
| "to_values acc bits (byte # bytes) =
     (let acc' = push_bit 8 acc OR to_int32 byte;
          (vals, bits') = take_values acc' (bits + 8)
      in vals @ to_values acc' bits' bytes)"

text \<open>The closures \<^verbatim>\<open>polymod\<close>, \<^verbatim>\<open>hrpExpand\<close> and \<^verbatim>\<open>createChecksum\<close>.\<close>

definition GEN :: "32 word list" where
  "GEN = [0x3b6a57b2, 0x26508e6d, 0x1ea119fa, 0x3d4233dd, 0x2a1462b3]"

definition polymod_step :: "32 word \<Rightarrow> nat \<Rightarrow> 32 word" where
  "polymod_step chk v =
     (let b = signed_drop_bit 25 chk;
          chk1 = push_bit 5 (chk AND 0x1ffffff) XOR of_nat v
      in foldl (\<lambda>c i. if signed_drop_bit i b AND 1 \<noteq> 0 then c XOR GEN ! i else c)
           chk1 [0..<5])"

definition polymod :: "nat list \<Rightarrow> 32 word" where
  "polymod vals = foldl polymod_step 1 vals"

definition hrpExpand :: "js_string \<Rightarrow> nat list" where
  "hrpExpand hrp = map (\<lambda>u. u div 32) hrp @ [0] @ map (\<lambda>u. u mod 32) hrp"

definition createChecksum :: "js_string \<Rightarrow> nat list \<Rightarrow> nat list" where
  "createChecksum hrp data =
     (let polymodValue = polymod (hrpExpand hrp @ data @ [0, 0, 0, 0, 0, 0]) XOR 1
      in map (\<lambda>i. unat (signed_drop_bit (5 * (5 - i)) polymodValue AND 31)) [0..<6])"

definition hexToNpub :: "js_string \<Rightarrow> js_string" where
  "hexToNpub hex =
     (let hrp = ascii ''npub'';
          vals = to_values 0 0 (hex_pairs hex);
          combined = vals @ createChecksum hrp vals
      in hrp @ ascii ''1''
           @ concat (map (\<lambda>v. case js_index ALPHABET v of None \<Rightarrow> [] | Some c \<Rightarrow> [c]) combined))"

text \<open>
  The specification's validity of a checksum (BIP-173), for comparison, on a
  lower-case string: the polymod of the expanded prefix followed by all values of the
  data part, checksum included, is 1. No function of the repository computes it.
\<close>

definition spec_checksum_valid :: "js_string \<Rightarrow> bool" where
  "spec_checksum_valid lower =
     (case alphabet_values (drop 5 lower) of
        None \<Rightarrow> False
      | Some vals \<Rightarrow> polymod (hrpExpand (take 4 lower) @ vals) = 1)"

section \<open>Cipher layer (normalizePrivateKey, nip04Encrypt, nip04Decrypt)\<close>

text \<open>
  The library and platform functions the code calls, as parameters. Bytes are the
  elements of a \<^verbatim>\<open>Uint8Array\<close>. A function that can throw returns \<open>None\<close> where it
  throws. Private keys are code-unit strings, as in the key codec; the other strings
  are those of events and parsed values.
\<close>

type_synonym bytes = "nat list"

record platform =
  string_toLowerCase :: "js_string \<Rightarrow> js_string"
  atob_bytes :: "string \<Rightarrow> bytes option"
  btoa_bytes :: "bytes \<Rightarrow> string"
  JSON_parse :: "string \<Rightarrow> json option"
  ToString :: "json \<Rightarrow> string"
  utf8_encode :: "string \<Rightarrow> bytes"
  utf8_decode :: "bytes \<Rightarrow> string"
  crypto_subtle :: bool
  shared_x :: "js_string \<Rightarrow> string \<Rightarrow> bytes option"
  aes_cbc_encrypt :: "bytes \<Rightarrow> bytes \<Rightarrow> bytes \<Rightarrow> bytes option"
  aes_cbc_decrypt :: "bytes \<Rightarrow> bytes \<Rightarrow> bytes \<Rightarrow> bytes option"
  nip44_decrypt :: "js_string \<Rightarrow> string \<Rightarrow> string \<Rightarrow> string option"
  sha256 :: "bytes \<Rightarrow> bytes"
  schnorr_sign :: "bytes \<Rightarrow> js_string \<Rightarrow> bytes option"
  JSON_quote :: "string \<Rightarrow> string"
  JSON_number :: "int \<Rightarrow> string"

text \<open>
  \<open>string_toLowerCase\<close> is \<^verbatim>\<open>String.prototype.toLowerCase\<close>; \<open>atob_bytes\<close> is
  \<^verbatim>\<open>Uint8Array.from(atob(s), c => c.charCodeAt(0))\<close> and \<open>btoa_bytes\<close> is
  \<^verbatim>\<open>btoa(String.fromCharCode(...bytes))\<close>; \<open>ToString\<close> is the conversion \<^verbatim>\<open>atob\<close> and
  \<^verbatim>\<open>JSON.parse\<close> apply to an argument that is not a string; \<open>utf8_encode\<close> and
  \<open>utf8_decode\<close> are \<^verbatim>\<open>TextEncoder.encode\<close> and \<^verbatim>\<open>TextDecoder.decode\<close>; \<open>crypto_subtle\<close>
  says whether \<^verbatim>\<open>crypto.subtle\<close> exists; \<open>shared_x key pubkey\<close> is
  \<^verbatim>\<open>getSharedSecret(hexToBytes(key), hexToBytes("02" + pubkey)).slice(1, 33)\<close>;
  \<open>aes_cbc_encrypt key iv data\<close> is \<^verbatim>\<open>importKey\<close> followed by \<^verbatim>\<open>encrypt\<close> with AES-CBC, and
  \<open>aes_cbc_decrypt\<close> likewise; \<open>nip44_decrypt key pubkey ciphertext\<close> is
  \<^verbatim>\<open>nip44.v2.decrypt(ciphertext, getConversationKey(hexToBytes(key), pubkey))\<close>;
  \<open>sha256\<close> is the hash of the library; \<open>schnorr_sign hash key\<close> is
  \<^verbatim>\<open>schnorr.sign(hash, hexToBytes(key))\<close> with the randomness of one call; \<open>JSON_quote\<close> and
  \<open>JSON_number\<close> are \<^verbatim>\<open>JSON.stringify\<close> on a string and on a number.
\<close>

text \<open>\<^verbatim>\<open>String.prototype.trim\<close> and \<^verbatim>\<open>padStart(64, "0")\<close>.\<close>

definition trim :: "js_string \<Rightarrow> js_string" where
  "trim s = rev (dropWhile is_js_whitespace (rev (dropWhile is_js_whitespace s)))"

definition padStart64 :: "js_string \<Rightarrow> js_string" where
  "padStart64 s = replicate (64 - length s) 48 @ s"

definition normalizePrivateKey :: "platform \<Rightarrow> js_string \<Rightarrow> error + js_string" where
  "normalizePrivateKey P privateKey =
     (let hex0 = trim privateKey;
          decoded = (if take 4 hex0 = ascii ''nsec''
                     then (case bech32ToHex (string_toLowerCase P) hex0 of
                             None \<Rightarrow> Inl InvalidNsecFormat
                           | Some (t, h) \<Rightarrow> if t \<noteq> Nsec then Inl InvalidNsecFormat else Inr h)
                     else Inr hex0)
      in case decoded of
           Inl e \<Rightarrow> Inl e
         | Inr hex1 \<Rightarrow>
             (let hex2 = (if length hex1 < 64 then padStart64 hex1 else hex1)
              in if length hex2 \<noteq> 64 then Inl (InvalidPrivateKeyLength (length hex2))
                 else Inr hex2))"

text \<open>
  \<^verbatim>\<open>s.includes(sep)\<close> and the first two elements of \<^verbatim>\<open>s.split(sep)\<close>, for a separator
  that is not empty: \<open>split_first\<close> cuts at the first occurrence.
\<close>

fun split_first :: "'a list \<Rightarrow> 'a list \<Rightarrow> ('a list \<times> 'a list) option" where
  "split_first sep [] = None"
| "split_first sep (c # cs) =
     (if take (length sep) (c # cs) = sep then Some ([], drop (length sep) (c # cs))
      else map_option (\<lambda>(a, b). (c # a, b)) (split_first sep cs))"

definition js_includes :: "'a list \<Rightarrow> 'a list \<Rightarrow> bool" where
  "js_includes s sep = (split_first sep s \<noteq> None)"

definition split2 :: "'a list \<Rightarrow> 'a list \<Rightarrow> 'a list \<times> 'a list" where
  "split2 s sep =
     (case split_first sep s of
        None \<Rightarrow> (s, [])
      | Some (a, rest) \<Rightarrow>
          (a, case split_first sep rest of None \<Rightarrow> rest | Some (b, later) \<Rightarrow> b))"

text \<open>The argument of \<^verbatim>\<open>atob\<close> or \<^verbatim>\<open>JSON.parse\<close> as a string.\<close>

definition string_of :: "platform \<Rightarrow> json \<Rightarrow> string" where
  "string_of P v = (case v of JStr s \<Rightarrow> s | _ \<Rightarrow> ToString P v)"

text \<open>
  \<^verbatim>\<open>nip04Encrypt\<close>, with the random \<open>iv\<close> of \<^verbatim>\<open>crypto.getRandomValues\<close> as an argument.
\<close>

definition nip04Encrypt :: "platform \<Rightarrow> bytes \<Rightarrow> js_string \<Rightarrow> string \<Rightarrow> string \<Rightarrow> error + string" where
  "nip04Encrypt P iv privateKey recipientPubkey message =
     (case normalizePrivateKey P privateKey of
        Inl e \<Rightarrow> Inl e
      | Inr normalizedKey \<Rightarrow>
          (case shared_x P normalizedKey recipientPubkey of
             None \<Rightarrow> Inl LibraryError
           | Some sharedX \<Rightarrow>
               (case aes_cbc_encrypt P sharedX iv (utf8_encode P message) of
                  None \<Rightarrow> Inl LibraryError
                | Some encrypted \<Rightarrow>
                    Inr (btoa_bytes P encrypted @ ''?iv='' @ btoa_bytes P iv))))"

definition nip44DecryptMessage :: "platform \<Rightarrow> js_string \<Rightarrow> string \<Rightarrow> string \<Rightarrow> error + string" where
  "nip44DecryptMessage P privateKey senderPubkey ciphertext =
     (case normalizePrivateKey P privateKey of
        Inl e \<Rightarrow> Inl e
      | Inr normalizedKey \<Rightarrow>
          (case nip44_decrypt P normalizedKey senderPubkey ciphertext of
             None \<Rightarrow> Inl LibraryError
           | Some plaintext \<Rightarrow> Inr plaintext))"

text \<open>
  The first part of \<^verbatim>\<open>nip04DecryptOnly\<close>: \<^verbatim>\<open>encryptedBytes\<close> and \<^verbatim>\<open>ivBytes\<close>, or the error
  thrown. In the three separator branches a throwing \<^verbatim>\<open>atob\<close> rejects the promise; in
  the JSON branch the \<^verbatim>\<open>try\<close> swallows it and leaves a variable undefined.
\<close>

definition separated_parts :: "platform \<Rightarrow> string \<Rightarrow> string \<Rightarrow> error + bytes \<times> bytes" where
  "separated_parts P ciphertext sep =
     (let (encryptedBase64, ivBase64) = split2 ciphertext sep
      in case atob_bytes P encryptedBase64 of
           None \<Rightarrow> Inl LibraryError
         | Some encryptedBytes \<Rightarrow>
             (case atob_bytes P ivBase64 of
                None \<Rightarrow> Inl LibraryError
              | Some ivBytes \<Rightarrow> Inr (encryptedBytes, ivBytes)))"

definition json_parts :: "platform \<Rightarrow> string \<Rightarrow> bytes option \<times> bytes option" where
  "json_parts P ciphertext =
     (case JSON_parse P ciphertext of
        None \<Rightarrow> (None, None)
      | Some json \<Rightarrow>
          if json = JNull then (None, None)
          else if truthy (field json ''ciphertext'') \<and> truthy (field json ''iv'')
          then (case atob_bytes P (string_of P (the (field json ''ciphertext''))) of
                  None \<Rightarrow> (None, None)
                | Some encryptedBytes \<Rightarrow>
                    (Some encryptedBytes, atob_bytes P (string_of P (the (field json ''iv'')))))
          else (None, None))"

definition cipher_parts :: "platform \<Rightarrow> string \<Rightarrow> error + bytes \<times> bytes" where
  "cipher_parts P ciphertext =
     (if js_includes ciphertext ''?iv='' then separated_parts P ciphertext ''?iv=''
      else if js_includes ciphertext ''&iv='' then separated_parts P ciphertext ''&iv=''
      else if js_includes ciphertext ''_iv='' then separated_parts P ciphertext ''_iv=''
      else (case json_parts P ciphertext of
              (Some encryptedBytes, Some ivBytes) \<Rightarrow> Inr (encryptedBytes, ivBytes)
            | _ \<Rightarrow> Inl InvalidCiphertextFormat))"

definition nip04DecryptOnly :: "platform \<Rightarrow> js_string \<Rightarrow> string \<Rightarrow> string \<Rightarrow> error + string" where
  "nip04DecryptOnly P privateKey senderPubkey ciphertext =
     (if \<not> crypto_subtle P then Inl WebCryptoUnavailable
      else case cipher_parts P ciphertext of
             Inl e \<Rightarrow> Inl e
           | Inr (encryptedBytes, ivBytes) \<Rightarrow>
               if length ivBytes \<noteq> 16 then Inl (InvalidIVLength (length ivBytes))
               else if length encryptedBytes = 0 then Inl EmptyCiphertext
               else (case normalizePrivateKey P privateKey of
                       Inl e \<Rightarrow> Inl e
                     | Inr normalizedKey \<Rightarrow>
                         (case shared_x P normalizedKey senderPubkey of
                            None \<Rightarrow> Inl LibraryError
                          | Some sharedX \<Rightarrow>
                              (case aes_cbc_decrypt P sharedX ivBytes encryptedBytes of
                                 None \<Rightarrow> Inl LibraryError
                               | Some decrypted \<Rightarrow> Inr (utf8_decode P decrypted)))))"

text \<open>
  \<^verbatim>\<open>nip04Decrypt\<close>. \<open>nip44_attempt\<close> is its first \<^verbatim>\<open>try\<close>: \<open>Some\<close> the plaintext it
  returns, \<open>None\<close> when control leaves the block, also through the \<^verbatim>\<open>catch\<close>, which
  swallows a throwing \<^verbatim>\<open>atob\<close> and a throwing \<^verbatim>\<open>nip44DecryptMessage\<close> alike.
  \<open>json_format\<close> is the condition of its second \<^verbatim>\<open>try\<close>.
\<close>

definition nip44_attempt :: "platform \<Rightarrow> js_string \<Rightarrow> string \<Rightarrow> string \<Rightarrow> string option" where
  "nip44_attempt P privateKey senderPubkey ciphertext =
     (case atob_bytes P ciphertext of
        None \<Rightarrow> None
      | Some decoded \<Rightarrow>
          if js_index decoded 0 = Some 2 \<and> 65 \<le> length decoded
          then (case nip44DecryptMessage P privateKey senderPubkey ciphertext of
                  Inl e \<Rightarrow> None
                | Inr plaintext \<Rightarrow> Some plaintext)
          else None)"

definition json_format :: "platform \<Rightarrow> string \<Rightarrow> bool" where
  "json_format P ciphertext =
     (case JSON_parse P ciphertext of
        None \<Rightarrow> False
      | Some json \<Rightarrow>
          if json = JNull then False
          else truthy (field json ''ciphertext'') \<and> truthy (field json ''iv''))"

definition nip04Decrypt :: "platform \<Rightarrow> js_string \<Rightarrow> string \<Rightarrow> string \<Rightarrow> error + string" where
  "nip04Decrypt P privateKey senderPubkey ciphertext =
     (case nip44_attempt P privateKey senderPubkey ciphertext of
        Some plaintext \<Rightarrow> Inr plaintext
      | None \<Rightarrow>
          if js_includes ciphertext ''?iv='' \<or> js_includes ciphertext ''&iv=''
             \<or> js_includes ciphertext ''_iv=''
          then nip04DecryptOnly P privateKey senderPubkey ciphertext
          else if json_format P ciphertext
          then nip04DecryptOnly P privateKey senderPubkey ciphertext
          else Inl UnknownEncryptionFormat)"

text \<open>The two conditions \<^verbatim>\<open>nip04Decrypt\<close> tests on the ciphertext besides \<open>json_format\<close>.\<close>

definition versioned_format :: "platform \<Rightarrow> string \<Rightarrow> bool" where
  "versioned_format P ciphertext =
     (case atob_bytes P ciphertext of
        None \<Rightarrow> False
      | Some decoded \<Rightarrow> js_index decoded 0 = Some 2 \<and> 65 \<le> length decoded)"

definition has_iv_separator :: "string \<Rightarrow> bool" where
  "has_iv_separator ciphertext =
     (js_includes ciphertext ''?iv='' \<or> js_includes ciphertext ''&iv=''
      \<or> js_includes ciphertext ''_iv='')"

definition succeeded :: "error + 'a \<Rightarrow> bool" where
  "succeeded r = (case r of Inl e \<Rightarrow> False | Inr x \<Rightarrow> True)"

text \<open>
  The JSON condition in the specification's words, for comparison: the text parses as
  JSON and the value has a \<^verbatim>\<open>ciphertext\<close> and an \<^verbatim>\<open>iv\<close> field.
\<close>

definition spec_json_format :: "platform \<Rightarrow> string \<Rightarrow> bool" where
  "spec_json_format P ciphertext =
     (case JSON_parse P ciphertext of
        None \<Rightarrow> False
      | Some json \<Rightarrow> field json ''ciphertext'' \<noteq> None \<and> field json ''iv'' \<noteq> None)"

text \<open>
  A platform for the examples: the values of \<^verbatim>\<open>atob\<close>, \<^verbatim>\<open>btoa\<close> and \<^verbatim>\<open>JSON.parse\<close> at the
  strings the examples use (\<^verbatim>\<open>atob\<close> and \<^verbatim>\<open>JSON.parse\<close> throw at the others), UTF-8 on
  ASCII text, and stand-ins for the cryptography: a shared secret that is the same
  for every pair of keys, and a cipher that pads the plaintext to the next multiple
  of 16 bytes as PKCS#7 does and leaves it unencrypted, a hash that truncates or pads
  to 32 bytes, and a signature that repeats the hash; \<^verbatim>\<open>JSON.stringify\<close> on strings
  that need no escape and on the numbers the examples use.
\<close>

definition demo_json :: "(string \<times> json) list" where
  \<open>demo_json =
     [(''{"ciphertext":"","iv":"AAAA"}'',
         JObj [(''ciphertext'', JStr ''''), (''iv'', JStr ''AAAA'')]),
      (''{"id":"zzz","result":"{}"}'',
         JObj [(''id'', JStr ''zzz''), (''result'', JStr ''{}'')]),
      (''{"id":"req1","result":"{}"}'',
         JObj [(''id'', JStr ''req1''), (''result'', JStr ''{}'')]),
      (''{"id":"req1","error":"denied"}'',
         JObj [(''id'', JStr ''req1''), (''error'', JStr ''denied'')]),
      (''{"id":"req1"}'',
         JObj [(''id'', JStr ''req1'')]),
      (''{"id":"req1","result":"oops"}'',
         JObj [(''id'', JStr ''req1''), (''result'', JStr ''oops'')]),
      (''{"id":"req1","result":"{}","error":"denied"}'',
         JObj [(''id'', JStr ''req1''), (''result'', JStr ''{}''), (''error'', JStr ''denied'')]),
      (''{}'',
         JObj [])]\<close>

definition demo_base64 :: "(string \<times> bytes) list" where
  "demo_base64 =
     [(''aGVsbG8LCwsLCwsLCwsLCw=='',
         [104, 101, 108, 108, 111, 11, 11, 11, 11, 11, 11, 11, 11, 11, 11, 11]),
      (''eyJpZCI6Inp6eiIsInJlc3VsdCI6Int9In0GBgYGBgY='',
         [123, 34, 105, 100, 34, 58, 34, 122, 122, 122, 34, 44, 34, 114, 101, 115, 117, 108, 116, 34, 58, 34, 123, 125, 34, 125, 6, 6, 6, 6, 6, 6]),
      (''eyJpZCI6InJlcTEiLCJyZXN1bHQiOiJ7fSJ9BQUFBQU='',
         [123, 34, 105, 100, 34, 58, 34, 114, 101, 113, 49, 34, 44, 34, 114, 101, 115, 117, 108, 116, 34, 58, 34, 123, 125, 34, 125, 5, 5, 5, 5, 5]),
      (''eyJpZCI6InJlcTEiLCJlcnJvciI6ImRlbmllZCJ9AgI='',
         [123, 34, 105, 100, 34, 58, 34, 114, 101, 113, 49, 34, 44, 34, 101, 114, 114, 111, 114, 34, 58, 34, 100, 101, 110, 105, 101, 100, 34, 125, 2, 2]),
      (''eyJpZCI6InJlcTEifQMDAw=='',
         [123, 34, 105, 100, 34, 58, 34, 114, 101, 113, 49, 34, 125, 3, 3, 3]),
      (''eyJpZCI6InJlcTEiLCJyZXN1bHQiOiJvb3BzIn0DAwM='',
         [123, 34, 105, 100, 34, 58, 34, 114, 101, 113, 49, 34, 44, 34, 114, 101, 115, 117, 108, 116, 34, 58, 34, 111, 111, 112, 115, 34, 125, 3, 3, 3]),
      (''eyJpZCI6InJlcTEiLCJyZXN1bHQiOiJ7fSIsImVycm9yIjoiZGVuaWVkIn0EBAQE'',
         [123, 34, 105, 100, 34, 58, 34, 114, 101, 113, 49, 34, 44, 34, 114, 101, 115, 117, 108, 116, 34, 58, 34, 123, 125, 34, 44, 34, 101, 114, 114, 111, 114, 34, 58, 34, 100, 101, 110, 105, 101, 100, 34, 125, 4, 4, 4, 4]),
      (''AAECAwQFBgcICQoLDA0ODw=='',
         [0, 1, 2, 3, 4, 5, 6, 7, 8, 9, 10, 11, 12, 13, 14, 15])]"

definition demo_platform :: platform where
  "demo_platform =
     \<lparr>string_toLowerCase = toLowerCase_ascii,
      atob_bytes = map_of demo_base64,
      btoa_bytes = (\<lambda>bs. case map_of (map (\<lambda>(s, b). (b, s)) demo_base64) bs of
                           None \<Rightarrow> [] | Some s \<Rightarrow> s),
      JSON_parse = map_of demo_json,
      ToString = (\<lambda>v. []),
      utf8_encode = map of_char,
      utf8_decode = map char_of,
      crypto_subtle = True,
      shared_x = (\<lambda>key pubkey. Some (replicate 32 7)),
      aes_cbc_encrypt = (\<lambda>key iv data.
         Some (data @ replicate (16 - length data mod 16) (16 - length data mod 16))),
      aes_cbc_decrypt = (\<lambda>key iv data. Some (take (length data - last data) data)),
      nip44_decrypt = (\<lambda>key pubkey ciphertext. None),
      sha256 = (\<lambda>data. take 32 (data @ replicate 32 0)),
      schnorr_sign = (\<lambda>hash key. Some (hash @ hash)),
      JSON_quote = (\<lambda>s. [CHR 0x22] @ s @ [CHR 0x22]),
      JSON_number = (\<lambda>n. case map_of [(0, ''0''), (1, ''1''), (24133, ''24133''),
                                         (1700000000, ''1700000000'')] n of
                             None \<Rightarrow> [] | Some s \<Rightarrow> s)\<rparr>"

section \<open>Theorems\<close>

subsection \<open>Connect acknowledgement\<close>

lemma truthy_js_or: "truthy (js_or a b) = (truthy a \<or> truthy b)"
  by (simp add: js_or_def)

lemma truthy_js_and: "truthy (js_and a b) = (truthy a \<and> truthy b)"
  by (simp add: js_and_def)

lemma truthy_js_not: "truthy (js_not a) = (\<not> truthy a)"
  by (simp add: js_not_def)

lemma truthy_strict_eq_string: "truthy (strict_eq_string a s) = (a = Some (JStr s))"
  by (simp add: strict_eq_string_def)

lemma truthy_not_undefined: "truthy (not_undefined a) = (a \<noteq> None)"
  by (simp add: not_undefined_def)

lemmas truthy_ops =
  truthy_js_or truthy_js_and truthy_js_not truthy_strict_eq_string truthy_not_undefined

text \<open>
  C6, as stated, fails: a response \<^verbatim>\<open>{"result": ""}\<close> has a result and no error, so
  the fourth condition of the claim holds, but the code tests the result for
  truthiness and the empty string is falsy, so the response is not classified as a
  connect acknowledgement.
\<close>

theorem connect_ack_counterexample:
  "spec_connect_ack ''00112233445566778899aabbccddeeff'' (JObj [(''result'', JStr '''')])
   \<and> \<not> connect_acknowledged ''00112233445566778899aabbccddeeff'' (JObj [(''result'', JStr '''')])"
  by (simp add: spec_connect_ack_def connect_acknowledged_def isConnectResponse_def truthy_ops)

text \<open>
  C6, amended: a parsed response is classified as a connect acknowledgement exactly
  when it is not \<^verbatim>\<open>null\<close> and one of five conditions holds: result is the string
  \<^verbatim>\<open>"ack"\<close>; result is the session secret; method is the string \<^verbatim>\<open>"connect"\<close>; result
  is truthy and error is falsy (absent, \<^verbatim>\<open>null\<close>, \<^verbatim>\<open>""\<close>, \<^verbatim>\<open>0\<close> or \<^verbatim>\<open>false\<close>); or id is
  truthy and result is present (any value, \<^verbatim>\<open>null\<close> included).
\<close>

theorem connect_ack_conditions:
  "connect_acknowledged secret response =
     (response \<noteq> JNull \<and>
      (field response ''result'' = Some (JStr ''ack'')
       \<or> field response ''result'' = Some (JStr secret)
       \<or> field response ''method'' = Some (JStr ''connect'')
       \<or> (truthy (field response ''result'') \<and> \<not> truthy (field response ''error''))
       \<or> (truthy (field response ''id'') \<and> field response ''result'' \<noteq> None)))"
  by (simp add: connect_acknowledged_def isConnectResponse_def truthy_ops)

text \<open>
  On responses whose id, result and error fields are truthy whenever they are
  present, the code and the specification's five conditions agree.
\<close>

lemma connect_ack_agrees_with_spec:
  assumes "response \<noteq> JNull"
    and "field response ''result'' \<noteq> None \<Longrightarrow> truthy (field response ''result'')"
    and "field response ''error'' \<noteq> None \<Longrightarrow> truthy (field response ''error'')"
    and "field response ''id'' \<noteq> None \<Longrightarrow> truthy (field response ''id'')"
  shows "connect_acknowledged secret response = spec_connect_ack secret response"
  using assms
  by (auto simp add: connect_acknowledged_def isConnectResponse_def truthy_ops spec_connect_ack_def)

subsection \<open>Follow count\<close>

lemma is_follow_tag_iff:
  "is_follow_tag tag = (tag \<noteq> [] \<and> hd tag = ''p'' \<and> 2 \<le> length tag \<and> tag ! 1 \<noteq> [])"
proof (cases tag)
  case Nil
  then show ?thesis by (simp add: is_follow_tag_def js_index_def)
next
  case (Cons a rest)
  then show ?thesis
    by (cases rest) (auto simp add: is_follow_tag_def js_index_def)
qed




text \<open>
  When every \<^verbatim>\<open>"p"\<close> tag carries a non-empty second element, the reported count is
  the specification's count.
\<close>

lemma follow_count_agrees_with_spec:
  assumes "\<forall>tag \<in> set ts. tag \<noteq> [] \<and> hd tag = ''p'' \<longrightarrow> 2 \<le> length tag \<and> tag ! 1 \<noteq> []"
  shows "length (filter is_follow_tag ts) = spec_follow_count ts"
proof -
  have "filter is_follow_tag ts = filter (\<lambda>tag. tag \<noteq> [] \<and> hd tag = ''p'') ts"
    using assms by (intro filter_cong) (auto simp add: is_follow_tag_iff)
  then show ?thesis by (simp add: spec_follow_count_def)
qed

subsection \<open>Notes query: delivery\<close>

lemma seenIds_checkComplete [simp]: "seenIds (checkComplete q) = seenIds q"
  by (simp add: checkComplete_def onComplete_def)

lemma onNote_calls_checkComplete [simp]: "onNote_calls (checkComplete q) = onNote_calls q"
  by (simp add: checkComplete_def onComplete_def)

lemma seenIds_closeConnections [simp]: "seenIds (closeConnections q) = seenIds q"
  by (simp add: closeConnections_def)

lemma onNote_calls_closeConnections [simp]: "onNote_calls (closeConnections q) = onNote_calls q"
  by (simp add: closeConnections_def)

lemma seenIds_onComplete [simp]: "seenIds (onComplete q) = seenIds q"
  by (simp add: onComplete_def)

lemma onNote_calls_onComplete [simp]: "onNote_calls (onComplete q) = onNote_calls q"
  by (simp add: onComplete_def)

lemma notes_step_delivery:
  "seenIds (notes_step q e) = seenIds q @ map event_id (first_by_id (filter (\<lambda>m. event_id m \<notin> set (seenIds q)) (text_notes [e])))
   \<and> onNote_calls (notes_step q e) = onNote_calls q @ first_by_id (filter (\<lambda>m. event_id m \<notin> set (seenIds q)) (text_notes [e]))"
proof (cases e)
  case (WsMessage r m)
  then show ?thesis by (cases m) (simp_all add: Let_def)
qed (simp_all add: Let_def)

lemma first_by_id_filter_seen:
  "filter (\<lambda>m. event_id m \<notin> S) (first_by_id ns) = first_by_id (filter (\<lambda>m. event_id m \<notin> S) ns)"
proof (induction ns rule: first_by_id.induct)
  case 1
  then show ?case by simp
next
  case (2 n ns)
  have comm: "filter (\<lambda>m. event_id m \<notin> S) (filter (\<lambda>m. event_id m \<noteq> event_id n) ns)
      = filter (\<lambda>m. event_id m \<noteq> event_id n) (filter (\<lambda>m. event_id m \<notin> S) ns)"
    by (simp add: conj_commute)
  show ?case
  proof (cases "event_id n \<in> S")
    case True
    have "filter (\<lambda>m. event_id m \<notin> S) (filter (\<lambda>m. event_id m \<noteq> event_id n) ns)
        = filter (\<lambda>m. event_id m \<notin> S) ns"
      using True by (auto intro: filter_cong)
    with 2 True show ?thesis by simp
  next
    case False
    with 2 comm show ?thesis by simp
  qed
qed

lemma notes_run_delivery:
  "seenIds (notes_run q evs) = seenIds q @ map event_id (first_by_id (filter (\<lambda>m. event_id m \<notin> set (seenIds q)) (text_notes evs)))
   \<and> onNote_calls (notes_run q evs) = onNote_calls q @ first_by_id (filter (\<lambda>m. event_id m \<notin> set (seenIds q)) (text_notes evs))"
proof (induction evs arbitrary: q)
  case Nil
  then show ?case by (simp add: notes_run_def)
next
  case (Cons e evs)
  let ?new = "\<lambda>S. filter (\<lambda>m. event_id m \<notin> set S)"
  define q' where "q' = notes_step q e"
  have run: "notes_run q (e # evs) = notes_run q' evs"
    by (simp add: notes_run_def q'_def)
  note ih = Cons.IH [of q']
  consider (fresh) r ev where "e = WsMessage r (EVENT ev)" "kind ev = 1" "event_id ev \<notin> set (seenIds q)"
    | (stale) "text_notes (e # evs) = text_notes evs \<or> (\<exists>ev. text_notes (e # evs) = ev # text_notes evs \<and> event_id ev \<in> set (seenIds q))"
        "seenIds q' = seenIds q" "onNote_calls q' = onNote_calls q"
  proof (cases e)
    case (WsMessage r m)
    show ?thesis
    proof (cases m)
      case (EVENT ev)
      show ?thesis
      proof (cases "kind ev = 1 \<and> event_id ev \<notin> set (seenIds q)")
        case True
        then show ?thesis using fresh WsMessage EVENT by simp
      next
        case False
        then show ?thesis using stale WsMessage EVENT by (auto simp add: q'_def)
      qed
    next
      case EOSE
      then show ?thesis using stale WsMessage by (simp add: q'_def)
    next
      case OTHER
      then show ?thesis using stale WsMessage by (simp add: q'_def)
    qed
  qed (use stale in \<open>simp_all add: Let_def q'_def\<close>)
  then show ?case
  proof cases
    case fresh
    have s: "seenIds q' = seenIds q @ [event_id ev]"
      and d: "onNote_calls q' = onNote_calls q @ [ev]"
      using fresh by (simp_all add: Let_def q'_def)
    have f: "filter (\<lambda>m. event_id m \<noteq> event_id ev) (?new (seenIds q) (text_notes evs))
               = ?new (seenIds q @ [event_id ev]) (text_notes evs)"
      by (auto intro: filter_cong)
    have t: "?new (seenIds q) (text_notes (e # evs)) = ev # ?new (seenIds q) (text_notes evs)"
      using fresh by simp
    have g: "first_by_id (ev # ?new (seenIds q) (text_notes evs))
               = ev # first_by_id (?new (seenIds q @ [event_id ev]) (text_notes evs))"
      by (simp only: first_by_id.simps f)
    have ih': "seenIds (notes_run q' evs) = (seenIds q @ [event_id ev])
                 @ map event_id (first_by_id (?new (seenIds q @ [event_id ev]) (text_notes evs)))
             \<and> onNote_calls (notes_run q' evs) = (onNote_calls q @ [ev])
                 @ first_by_id (?new (seenIds q @ [event_id ev]) (text_notes evs))"
      using ih by (simp only: s d)
    show ?thesis
      unfolding run t g using ih' by simp
  next
    case stale
    have "?new (seenIds q) (text_notes (e # evs)) = ?new (seenIds q) (text_notes evs)"
      using stale(1) by auto
    then show ?thesis
      unfolding run using ih stale(2,3) by simp
  qed
qed

lemma set_first_by_id: "set (first_by_id ns) \<subseteq> set ns"
  by (induction ns rule: first_by_id.induct) auto

lemma first_by_id_distinct: "distinct (map event_id (first_by_id ns))"
proof (induction ns rule: first_by_id.induct)
  case 1
  then show ?case by simp
next
  case (2 n ns)
  have "event_id n \<notin> event_id ` set (first_by_id (filter (\<lambda>m. event_id m \<noteq> event_id n) ns))"
    using set_first_by_id [of "filter (\<lambda>m. event_id m \<noteq> event_id n) ns"] by auto
  then show ?case using 2 by simp
qed

lemma fetch_seen: "seenIds (fetchNotesStreaming threw) = []" "onNote_calls (fetchNotesStreaming threw) = []"
  by (simp_all add: fetchNotesStreaming_def)

text \<open>
  C4: in every run of a notes query, whatever the relays send and in whatever order,
  the notes passed to \<^verbatim>\<open>onNote\<close> are the first arrivals of each event id, in order
  of arrival; no id is passed twice; the dedup set holds exactly the ids passed so
  far; and it only grows as the run goes on.
\<close>

theorem notes_delivered_at_most_once:
  "onNote_calls (notes_run (fetchNotesStreaming threw) evs) = first_by_id (text_notes evs)
   \<and> distinct (map event_id (onNote_calls (notes_run (fetchNotesStreaming threw) evs)))
   \<and> seenIds (notes_run (fetchNotesStreaming threw) evs)
       = map event_id (onNote_calls (notes_run (fetchNotesStreaming threw) evs))
   \<and> set (seenIds (notes_run (fetchNotesStreaming threw) evs))
       \<subseteq> set (seenIds (notes_run (fetchNotesStreaming threw) (evs @ later)))"
proof -
  let ?q = "fetchNotesStreaming threw"
  have a: "onNote_calls (notes_run ?q evs) = first_by_id (text_notes evs)"
    and b: "seenIds (notes_run ?q evs) = map event_id (first_by_id (text_notes evs))"
    using notes_run_delivery [of ?q evs] by (simp_all add: fetch_seen)
  have "notes_run ?q (evs @ later) = notes_run (notes_run ?q evs) later"
    by (simp add: notes_run_def)
  then have c: "set (seenIds (notes_run ?q evs)) \<subseteq> set (seenIds (notes_run ?q (evs @ later)))"
    using notes_run_delivery [of "notes_run ?q evs" later] by simp
  show ?thesis using a b c first_by_id_distinct [of "text_notes evs"] by simp
qed

subsection \<open>Notes query: completion\<close>

lemma length_RELAYS: "length RELAYS = 4"
  by (simp add: RELAYS_def)

lemma close_fires_0 [simp]: "close_fires c 0 = 0"
  by (simp add: close_fires_def)

lemma close_fires_Suc:
  "close_fires c (Suc m) = close_fires c m + (if length RELAYS \<le> c + Suc m then 1 else 0)"
  by (simp add: close_fires_def)

lemma checkComplete_counts:
  "completedRelays (checkComplete q) = completedRelays q"
  "onComplete_calls (checkComplete q) = onComplete_calls q + (if length RELAYS \<le> completedRelays q then 1 else 0)"
  "pending_timers (checkComplete q) \<le> pending_timers q"
  "length RELAYS \<le> completedRelays q \<Longrightarrow> \<not> timeoutId (checkComplete q)"
  "\<not> length RELAYS \<le> completedRelays q \<Longrightarrow> timeoutId (checkComplete q) = timeoutId q"
  by (simp_all add: checkComplete_def onComplete_def pending_timers_def)

lemma counts_simps:
  "completedRelays (onComplete q) = completedRelays q"
  "completedRelays (closeConnections q) = completedRelays q"
  "onComplete_calls (onComplete q) = Suc (onComplete_calls q)"
  "onComplete_calls (closeConnections q) = onComplete_calls q"
  "pending_timers (onComplete q) = pending_timers q"
  "pending_timers (closeConnections q) = pending_timers q"
  "timeoutId (onComplete q) = timeoutId q"
  "timeoutId (closeConnections q) = timeoutId q"
  by (simp_all add: onComplete_def closeConnections_def pending_timers_def)

lemma notes_step_message_counts:
  "completedRelays (notes_step q (WsMessage r m)) = completedRelays q"
  "onComplete_calls (notes_step q (WsMessage r m)) = onComplete_calls q"
  "pending_timers (notes_step q (WsMessage r m)) \<le> pending_timers q"
  "timeoutId (notes_step q (WsMessage r m)) = timeoutId q"
  by (cases m; simp add: Let_def pending_timers_def)+

lemma notes_step_closing_counts:
  assumes "q' = checkComplete q2"
    and "completedRelays q2 = Suc (completedRelays q)"
    and "onComplete_calls q2 = onComplete_calls q" and "pending_timers q2 = pending_timers q"
    and "timeoutId q2 = timeoutId q"
  shows "completedRelays q' = Suc (completedRelays q)"
    and "onComplete_calls q' = onComplete_calls q + close_fires (completedRelays q) (Suc 0)"
    and "pending_timers q' \<le> pending_timers q"
    and "1 \<le> onComplete_calls q \<or> timeoutId q \<Longrightarrow> 1 \<le> onComplete_calls q' \<or> timeoutId q'"
proof -
  note p = assms(2-5)
  show "completedRelays q' = Suc (completedRelays q)"
    using checkComplete_counts(1) [of q2] p by (simp add: assms(1))
  show "onComplete_calls q' = onComplete_calls q + close_fires (completedRelays q) (Suc 0)"
    using checkComplete_counts(2) [of q2] p by (simp add: assms(1) close_fires_Suc)
  show "pending_timers q' \<le> pending_timers q"
    using checkComplete_counts(3) [of q2] p by (simp add: assms(1))
  show "1 \<le> onComplete_calls q' \<or> timeoutId q'" if "1 \<le> onComplete_calls q \<or> timeoutId q"
    using checkComplete_counts(2,5) [of q2] p that
    by (cases "length RELAYS \<le> Suc (completedRelays q)") (auto simp add: assms(1))
qed

lemma notes_step_counts:
  "completedRelays (notes_step q e) = completedRelays q + closings [e]
   \<and> onComplete_calls q + close_fires (completedRelays q) (closings [e]) \<le> onComplete_calls (notes_step q e)
   \<and> onComplete_calls (notes_step q e) + pending_timers (notes_step q e)
        \<le> onComplete_calls q + pending_timers q + close_fires (completedRelays q) (closings [e])
   \<and> (1 \<le> onComplete_calls q \<or> timeoutId q \<longrightarrow> 1 \<le> onComplete_calls (notes_step q e) \<or> timeoutId (notes_step q e))"
proof (cases e)
  case (WsOpen r)
  then show ?thesis by (simp add: pending_timers_def)
next
  case (WsMessage r m)
  then show ?thesis
    using notes_step_message_counts [of q r m] by simp
next
  case (WsError r)
  have "notes_step q e = checkComplete (q\<lparr>completedRelays := Suc (completedRelays q)\<rparr>)"
    using WsError by simp
  from notes_step_closing_counts [OF this, of q] show ?thesis
    using WsError by (simp add: pending_timers_def)
next
  case (WsClose r)
  have "notes_step q e = checkComplete
      (q\<lparr>completedRelays := Suc (completedRelays q), sockets := (sockets q)[r := CLOSED]\<rparr>)"
    using WsClose by simp
  from notes_step_closing_counts [OF this, of q] show ?thesis
    using WsClose by (simp add: pending_timers_def)
next
  case TimeoutFired
  show ?thesis
  proof (cases "timeoutId q")
    case True
    then show ?thesis using TimeoutFired
      by (simp add: onComplete_def closeConnections_def pending_timers_def)
  next
    case False
    then show ?thesis using TimeoutFired by simp
  qed
next
  case EarlyTimeoutFired
  show ?thesis
  proof (cases "earlyTimeoutId q")
    case True
    then show ?thesis using EarlyTimeoutFired
      by (simp add: Let_def onComplete_def closeConnections_def pending_timers_def)
  next
    case False
    then show ?thesis using EarlyTimeoutFired by simp
  qed
qed

lemma closings_append: "closings (es @ [e]) = closings es + closings [e]"
  by (induction es rule: closings.induct) simp_all

lemma closings_single: "closings [e] = 0 \<or> closings [e] = Suc 0"
  by (cases e) simp_all

lemma close_fires_step:
  assumes "m1 = 0 \<or> m1 = Suc 0"
  shows "close_fires c (m + m1) = close_fires c m + close_fires (c + m) m1"
  using assms by (auto simp add: close_fires_Suc)

lemma notes_run_counts:
  "completedRelays (notes_run q evs) = completedRelays q + closings evs
   \<and> onComplete_calls q + close_fires (completedRelays q) (closings evs) \<le> onComplete_calls (notes_run q evs)
   \<and> onComplete_calls (notes_run q evs) + pending_timers (notes_run q evs)
        \<le> onComplete_calls q + pending_timers q + close_fires (completedRelays q) (closings evs)
   \<and> (1 \<le> onComplete_calls q \<or> timeoutId q \<longrightarrow> 1 \<le> onComplete_calls (notes_run q evs) \<or> timeoutId (notes_run q evs))"
proof (induction evs rule: rev_induct)
  case Nil
  then show ?case by (simp add: notes_run_def)
next
  case (snoc e evs)
  define q1 where "q1 = notes_run q evs"
  define q2 where "q2 = notes_step q1 e"
  have run: "notes_run q (evs @ [e]) = q2"
    by (simp add: notes_run_def q1_def q2_def)
  let ?F1 = "close_fires (completedRelays q) (closings evs)"
  let ?F2 = "close_fires (completedRelays q1) (closings [e])"
  have ih: "completedRelays q1 = completedRelays q + closings evs"
      "onComplete_calls q + ?F1 \<le> onComplete_calls q1"
      "onComplete_calls q1 + pending_timers q1 \<le> onComplete_calls q + pending_timers q + ?F1"
      "1 \<le> onComplete_calls q \<or> timeoutId q \<Longrightarrow> 1 \<le> onComplete_calls q1 \<or> timeoutId q1"
    using snoc.IH unfolding q1_def by blast+
  have st: "completedRelays q2 = completedRelays q1 + closings [e]"
      "onComplete_calls q1 + ?F2 \<le> onComplete_calls q2"
      "onComplete_calls q2 + pending_timers q2 \<le> onComplete_calls q1 + pending_timers q1 + ?F2"
      "1 \<le> onComplete_calls q1 \<or> timeoutId q1 \<Longrightarrow> 1 \<le> onComplete_calls q2 \<or> timeoutId q2"
    using notes_step_counts [of q1 e] unfolding q2_def by blast+
  have add: "close_fires (completedRelays q) (closings (evs @ [e])) = ?F1 + ?F2"
    using close_fires_step [OF closings_single, of "completedRelays q" "closings evs" e]
    by (simp only: closings_append ih(1))
  have "completedRelays q2 = completedRelays q + closings (evs @ [e])"
    using st(1) ih(1) by (simp only: closings_append)
  moreover have "onComplete_calls q + (?F1 + ?F2) \<le> onComplete_calls q2"
    using st(2) ih(2) by linarith
  moreover have "onComplete_calls q2 + pending_timers q2
      \<le> onComplete_calls q + pending_timers q + (?F1 + ?F2)"
    using st(3) ih(3) by linarith
  moreover have "1 \<le> onComplete_calls q \<or> timeoutId q
      \<longrightarrow> 1 \<le> onComplete_calls q2 \<or> timeoutId q2"
    using st(4) ih(4) by blast
  ultimately show ?case
    unfolding run add by blast
qed

lemma fetch_counts:
  "onComplete_calls (fetchNotesStreaming threw) = 0"
  "pending_timers (fetchNotesStreaming threw) = 2"
  "timeoutId (fetchNotesStreaming threw)"
  unfolding fetchNotesStreaming_def pending_timers_def
  by (simp_all only: notes_query.select_convs if_True if_False)

lemma notes_step_calls:
  "onComplete_calls (notes_step q e) = onComplete_calls q + (if completes q e then 1 else 0)"
proof (cases e)
  case (WsMessage r m)
  then show ?thesis by (cases m) (simp_all add: Let_def)
qed (simp_all add: Let_def checkComplete_def onComplete_def closeConnections_def)

lemma notes_step_timeoutId:
  "timeoutId (notes_step q e) = (timeoutId q \<and> e \<noteq> TimeoutFired \<and> \<not> completes q e)"
proof (cases e)
  case (WsMessage r m)
  then show ?thesis by (cases m) (simp_all add: Let_def)
qed (auto simp add: Let_def checkComplete_def onComplete_def closeConnections_def)

lemma notes_step_earlyTimeoutId:
  "earlyTimeoutId (notes_step q TimeoutFired) = earlyTimeoutId q"
  "earlyTimeoutId (notes_step q EarlyTimeoutFired) = False"
  "earlyTimeoutId (notes_step q (WsError r)) = (earlyTimeoutId q \<and> \<not> completes q (WsError r))"
  "earlyTimeoutId (notes_step q (WsClose r)) = (earlyTimeoutId q \<and> \<not> completes q (WsClose r))"
  by (auto simp add: Let_def checkComplete_def onComplete_def closeConnections_def)

lemma notes_run_calls:
  "onComplete_calls (notes_run q evs) = onComplete_calls q + completions q evs"
proof (induction evs arbitrary: q)
  case Nil
  then show ?case by (simp add: notes_run_def)
next
  case (Cons e evs)
  have "notes_run q (e # evs) = notes_run (notes_step q e) evs"
    by (simp add: notes_run_def)
  then show ?case
    using Cons.IH [of "notes_step q e"] notes_step_calls [of q e] by simp
qed

text \<open>
  C1, amended: \<^verbatim>\<open>fetchNotesStreaming\<close> keeps no completion latch, so \<^verbatim>\<open>onComplete\<close> can be
  invoked more than once for a query. In any state, whatever was invoked before, a
  handler run invokes \<^verbatim>\<open>onComplete\<close> exactly once when it is the hard-timer callback
  (timer pending), the early-settle callback (timer pending) with
  \<^verbatim>\<open>seenIds.size >= NOTES_PER_PAGE / 2\<close>, or an error or close notification that brings
  \<^verbatim>\<open>completedRelays\<close> to \<^verbatim>\<open>RELAYS.length\<close> or more, and not at all otherwise; the number of
  invocations in a run is the number of such handler runs. The hard timer stays
  pending exactly until its own callback or one of the other two completing runs; the
  hard-timer callback leaves the early-settle timer as it is; a completing error or
  close notification clears it. From the initial state, with \<open>m\<close> error and close
  notifications after \<open>k\<close> constructor failures, the number of invocations is at least
  the number of notifications \<open>j\<close> with \<^verbatim>\<open>RELAYS.length\<close> \<open>\<le> k + j\<close>, at most two more, and
  at least one unless the hard timer is still pending.
\<close>

theorem notes_completion_not_latched:
  "onComplete_calls (notes_step q e) = onComplete_calls q + (if completes q e then 1 else 0)
   \<and> onComplete_calls (notes_run (fetchNotesStreaming threw) evs)
        = completions (fetchNotesStreaming threw) evs
   \<and> timeoutId (notes_step q e) = (timeoutId q \<and> e \<noteq> TimeoutFired \<and> \<not> completes q e)
   \<and> earlyTimeoutId (notes_step q TimeoutFired) = earlyTimeoutId q
   \<and> earlyTimeoutId (notes_step q (WsError r)) = (earlyTimeoutId q \<and> \<not> completes q (WsError r))
   \<and> earlyTimeoutId (notes_step q (WsClose r)) = (earlyTimeoutId q \<and> \<not> completes q (WsClose r))
   \<and> completedRelays (notes_run (fetchNotesStreaming threw) evs)
      = completedRelays (fetchNotesStreaming threw) + closings evs
   \<and> close_fires (completedRelays (fetchNotesStreaming threw)) (closings evs)
        \<le> onComplete_calls (notes_run (fetchNotesStreaming threw) evs)
   \<and> onComplete_calls (notes_run (fetchNotesStreaming threw) evs)
        \<le> close_fires (completedRelays (fetchNotesStreaming threw)) (closings evs) + 2
   \<and> (1 \<le> onComplete_calls (notes_run (fetchNotesStreaming threw) evs)
        \<or> timeoutId (notes_run (fetchNotesStreaming threw) evs))"
proof -
  let ?init = "fetchNotesStreaming threw"
  let ?fin = "notes_run ?init evs"
  let ?F = "close_fires (completedRelays ?init) (closings evs)"
  have r: "completedRelays ?fin = completedRelays ?init + closings evs"
      "onComplete_calls ?init + ?F \<le> onComplete_calls ?fin"
      "onComplete_calls ?fin + pending_timers ?fin \<le> onComplete_calls ?init + pending_timers ?init + ?F"
      "1 \<le> onComplete_calls ?init \<or> timeoutId ?init \<Longrightarrow> 1 \<le> onComplete_calls ?fin \<or> timeoutId ?fin"
    using notes_run_counts [of ?init evs] by blast+
  have a: "?F \<le> onComplete_calls ?fin"
    using r(2) by (simp only: fetch_counts)
  have b: "onComplete_calls ?fin \<le> ?F + 2"
    using r(3) by (simp only: fetch_counts)
  have c: "1 \<le> onComplete_calls ?fin \<or> timeoutId ?fin"
    using r(4) fetch_counts(3) by blast
  have d: "onComplete_calls ?fin = completions ?init evs"
    using notes_run_calls [of ?init evs] by (simp only: fetch_counts add_0)
  show ?thesis
    using a b c d r(1) notes_step_calls [of q e] notes_step_timeoutId [of q e]
      notes_step_earlyTimeoutId(1,3,4) [of q]
    by blast
qed

lemma fetch_all_open:
  "fetchNotesStreaming (\<lambda>r. False) =
     \<lparr>seenIds = [], completedRelays = 0, hasReceivedAny = False, timeoutId = True,
      earlyTimeoutId = False, sockets = [CONNECTING, CONNECTING, CONNECTING, CONNECTING],
      activeConnections = [0, 1, 2, 3], onNote_calls = [], onComplete_calls = 0\<rparr>"
  by (simp add: fetchNotesStreaming_def RELAYS_def upt_conv_Cons)

text \<open>
  C1, as stated, fails: when no relay answers, the hard timer fires, closes the four
  sockets and calls \<^verbatim>\<open>onComplete\<close>; the four close notifications follow, and the
  fourth calls \<^verbatim>\<open>onComplete\<close> again.
\<close>

theorem notes_completion_counterexample:
  "notes_feasible (fetchNotesStreaming (\<lambda>r. False))
      [TimeoutFired, WsClose 0, WsClose 1, WsClose 2, WsClose 3]
   \<and> onComplete_calls (notes_run (fetchNotesStreaming (\<lambda>r. False))
      [TimeoutFired, WsClose 0, WsClose 1, WsClose 2, WsClose 3]) = 2"
  by (simp add: fetch_all_open notes_run_def RELAYS_def closeConnections_def
      onComplete_def checkComplete_def ws_close_def)

text \<open>
  Neither timer is latched against the other: with ten notes received, the hard
  timer fires and then the early-settle timer, and \<^verbatim>\<open>onComplete\<close> is invoked twice.
\<close>

lemma notes_completion_both_timers:
  "onComplete_calls (notes_run (fetchNotesStreaming (\<lambda>r. False))
      (map (\<lambda>i. WsMessage 0 (EVENT \<lparr>event_id = [char_of i], pubkey = ''a'', created_at = 0,
           kind = 1, tags = [], content = '''', sig = ''''\<rparr>)) [0..<10::nat]
       @ [TimeoutFired, EarlyTimeoutFired])) = 2"
  by (simp add: fetch_all_open notes_run_def closeConnections_def upt_conv_Cons
      onComplete_def checkComplete_def ws_close_def NOTES_PER_PAGE_def Let_def)

subsection \<open>bech32 decoding\<close>

lemma alphabet_values_append:
  "alphabet_values (a @ b) =
     (case alphabet_values a of
        None \<Rightarrow> None
      | Some va \<Rightarrow> (case alphabet_values b of None \<Rightarrow> None | Some vb \<Rightarrow> Some (va @ vb)))"
  by (induction a) (auto split: option.splits)

lemma alphabet_values_length: "alphabet_values s = Some vs \<Longrightarrow> length vs = length s"
  by (induction s arbitrary: vs) (auto split: option.splits)

text \<open>
  C2, amended: \<^verbatim>\<open>bech32ToHex\<close> never verifies the checksum and has no ChecksumMismatch
  failure. Let the lower-cased input be \<open>pre\<close> followed by six characters \<open>cs\<close>, with
  \<open>pre\<close> at least five characters long. The result is \<^verbatim>\<open>null\<close> when \<open>pre\<close> starts with
  neither \<^verbatim>\<open>nsec\<close> nor \<^verbatim>\<open>npub\<close>, when a character of \<open>pre\<close> after its fifth is outside
  the bech32 alphabet, or when a character of \<open>cs\<close> is; otherwise it is the type of the
  prefix with the hex of the bytes regrouped from the alphabet values of the characters
  of \<open>pre\<close> after its fifth. The six checksum characters are looked up in the alphabet
  and their values are never used.
\<close>

theorem bech32ToHex_ignores_checksum:
  assumes low: "toLowerCase bech32 = pre @ cs"
    and pre: "5 \<le> length pre"
    and len: "length cs = 6"
  shows "bech32ToHex toLowerCase bech32 =
     (if take 4 pre \<noteq> ascii ''nsec'' \<and> take 4 pre \<noteq> ascii ''npub'' then None
      else case alphabet_values (drop 5 pre) of
             None \<Rightarrow> None
           | Some vals \<Rightarrow>
               (if alphabet_values cs = None then None
                else Some (if take 4 pre = ascii ''nsec'' then Nsec else Npub,
                           concat (map byte_hex (to_bytes 0 0 vals)))))"
proof -
  define P where "P = take 4 pre"
  define D where "D = drop 5 pre"
  have t: "take 4 (pre @ cs) = P"
    using pre by (simp add: P_def)
  have d: "drop 5 (pre @ cs) = D @ cs"
    using pre by (simp add: D_def)
  have ne: "ascii ''nsec'' \<noteq> ascii ''npub''"
    by (simp add: ascii_def)
  have e: "bech32ToHex toLowerCase bech32 =
     (case (if P = ascii ''nsec'' then Some Nsec
            else if P = ascii ''npub'' then Some Npub else None) of
        None \<Rightarrow> None
      | Some t \<Rightarrow>
          (case alphabet_values (D @ cs) of
             None \<Rightarrow> None
           | Some vals \<Rightarrow>
               Some (t, concat (map byte_hex (to_bytes 0 0 (take (length vals - 6) vals))))))"
    by (simp only: bech32ToHex_def Let_def low t d)
  have v: "alphabet_values (D @ cs) =
     (case alphabet_values D of
        None \<Rightarrow> None
      | Some vals \<Rightarrow> (case alphabet_values cs of None \<Rightarrow> None | Some vc \<Rightarrow> Some (vals @ vc)))"
    by (rule alphabet_values_append)
  have k: "take (length (vals @ vc) - 6) (vals @ vc) = vals" if "alphabet_values cs = Some vc" for vals vc
    using alphabet_values_length [OF that] len by simp
  show ?thesis
    unfolding e v P_def [symmetric] D_def [symmetric]
    using ne k by (auto split: option.splits)
qed

text \<open>
  Hence any six alphabet characters in place of the checksum give the same result.
\<close>

lemma bech32ToHex_same_for_any_checksum:
  assumes "toLowerCase a = pre @ cs" and "toLowerCase b = pre @ cs'"
    and "5 \<le> length pre" and "length cs = 6" and "length cs' = 6"
    and "alphabet_values cs \<noteq> None" and "alphabet_values cs' \<noteq> None"
  shows "bech32ToHex toLowerCase b = bech32ToHex toLowerCase a"
proof -
  from assms(6) obtain vc where "alphabet_values cs = Some vc" by auto
  moreover from assms(7) obtain vc' where "alphabet_values cs' = Some vc'" by auto
  ultimately show ?thesis
    by (auto simp add: bech32ToHex_ignores_checksum [of toLowerCase a pre cs, OF assms(1) assms(3) assms(4)]
        bech32ToHex_ignores_checksum [of toLowerCase b pre cs', OF assms(2) assms(3) assms(5)]
        split: option.splits)
qed

text \<open>The only failure is \<^verbatim>\<open>null\<close>, and only for these two reasons.\<close>

lemma bech32ToHex_None_iff:
  "bech32ToHex toLowerCase s = None \<longleftrightarrow>
     (take 4 (toLowerCase s) \<noteq> ascii ''nsec'' \<and> take 4 (toLowerCase s) \<noteq> ascii ''npub'')
     \<or> alphabet_values (drop 5 (toLowerCase s)) = None"
  by (auto simp add: bech32ToHex_def Let_def split: option.splits)

text \<open>
  C2, as stated, fails: the npub of a key has a valid checksum; with its last checksum
  character changed from 6 to q the checksum is invalid, and \<^verbatim>\<open>bech32ToHex\<close> returns
  the key's bytes for it.
\<close>

theorem bech32_checksum_counterexample:
  "spec_checksum_valid
      (ascii ''npub180cvv07tjdrrgpa0j7j7tmnyl2yr6yr7l8j4s3evf6u64th6gkwsyjh6w6'')
   \<and> \<not> spec_checksum_valid
         (ascii ''npub180cvv07tjdrrgpa0j7j7tmnyl2yr6yr7l8j4s3evf6u64th6gkwsyjh6wq'')
   \<and> bech32ToHex toLowerCase_ascii
         (ascii ''npub180cvv07tjdrrgpa0j7j7tmnyl2yr6yr7l8j4s3evf6u64th6gkwsyjh6wq'')
     = Some (Npub, ascii ''3bf0c63fcb93463407af97a5e5ee64fa883d107ef9e558472c4eb9aaaefa459d'')"
  by code_simp

theorem bech32ToHex_ignores_checksum_witness:
  "bech32ToHex toLowerCase_ascii (ascii ''NPUB1qqqqqqqyjh6wq'')
     = Some (Npub, ascii ''00000000'')
   \<and> bech32ToHex toLowerCase_ascii (ascii ''npub1qqqqqqqqqqqqb'') = None"
proof -
  have low1: "toLowerCase_ascii (ascii ''NPUB1qqqqqqqyjh6wq'')
      = ascii ''npub1qqqqqqq'' @ ascii ''yjh6wq''"
    by (simp add: toLowerCase_ascii_def ascii_def)
  have low2: "toLowerCase_ascii (ascii ''npub1qqqqqqqqqqqqb'')
      = ascii ''npub1qqqqqqq'' @ ascii ''qqqqqb''"
    by (simp add: toLowerCase_ascii_def ascii_def)
  have len: "5 \<le> length (ascii ''npub1qqqqqqq'')" "length (ascii ''yjh6wq'') = 6"
    "length (ascii ''qqqqqb'') = 6"
    by (simp_all add: ascii_def)
  have v1: "alphabet_values (drop 5 (ascii ''npub1qqqqqqq'')) = Some [0, 0, 0, 0, 0, 0, 0]"
    and v2: "alphabet_values (ascii ''yjh6wq'') \<noteq> None"
    and v3: "alphabet_values (ascii ''qqqqqb'') = None"
    and p: "take 4 (ascii ''npub1qqqqqqq'') = ascii ''npub''" "ascii ''npub'' \<noteq> ascii ''nsec''"
    and h: "concat (map byte_hex (to_bytes 0 0 [0, 0, 0, 0, 0, 0, 0])) = ascii ''00000000''"
    by code_simp+
  show ?thesis
    using bech32ToHex_ignores_checksum
        [of toLowerCase_ascii "ascii ''NPUB1qqqqqqqyjh6wq''" "ascii ''npub1qqqqqqq''"
          "ascii ''yjh6wq''", OF low1 len(1) len(2)]
      bech32ToHex_ignores_checksum
        [of toLowerCase_ascii "ascii ''npub1qqqqqqqqqqqqb''" "ascii ''npub1qqqqqqq''"
          "ascii ''qqqqqb''", OF low2 len(1) len(3)]
    by (simp add: v1 v2 v3 p h del: to_bytes.simps)
qed

subsection \<open>Cipher layer: dispatch\<close>

text \<open>
  C3, amended: \<^verbatim>\<open>nip04Decrypt\<close> classifies in this order. If the input base64-decodes
  and the first decoded byte is 0x02 with decoded length at least 65, it calls the
  versioned NIP-44 decryptor and returns its plaintext when that succeeds; when the
  versioned decryptor throws, the error is swallowed and classification goes on as for
  an input that is not versioned. Then, if the input contains one of \<^verbatim>\<open>?iv=\<close>,
  \<^verbatim>\<open>&iv=\<close>, \<^verbatim>\<open>_iv=\<close>, or parses as JSON to a value other than \<^verbatim>\<open>null\<close> whose
  \<^verbatim>\<open>ciphertext\<close> and \<^verbatim>\<open>iv\<close> fields are both truthy, the result is that of the legacy
  NIP-04 path; otherwise it fails with the unknown-format error.
\<close>

theorem nip04Decrypt_dispatch:
  "nip04Decrypt P privateKey senderPubkey ciphertext =
     (if versioned_format P ciphertext
         \<and> succeeded (nip44DecryptMessage P privateKey senderPubkey ciphertext)
      then nip44DecryptMessage P privateKey senderPubkey ciphertext
      else if has_iv_separator ciphertext \<or> json_format P ciphertext
      then nip04DecryptOnly P privateKey senderPubkey ciphertext
      else Inl UnknownEncryptionFormat)"
  by (auto simp add: nip04Decrypt_def nip44_attempt_def versioned_format_def succeeded_def
      has_iv_separator_def split: option.splits sum.splits)

text \<open>
  C3, as stated, fails: \<^verbatim>\<open>{"ciphertext":"","iv":"AAAA"}\<close> is not base64, contains no
  separator and parses as JSON with a \<^verbatim>\<open>ciphertext\<close> and an \<^verbatim>\<open>iv\<close> field, and
  \<^verbatim>\<open>nip04Decrypt\<close> fails with the unknown-format error: the empty \<^verbatim>\<open>ciphertext\<close> is falsy,
  so the legacy path, which would fail with its own format error, is not taken.
\<close>

theorem nip04Decrypt_dispatch_counterexample:
  \<open>spec_json_format demo_platform ''{"ciphertext":"","iv":"AAAA"}''
   \<and> \<not> versioned_format demo_platform ''{"ciphertext":"","iv":"AAAA"}''
   \<and> \<not> has_iv_separator ''{"ciphertext":"","iv":"AAAA"}''
   \<and> nip04Decrypt demo_platform (ascii ''01'') ''ab'' ''{"ciphertext":"","iv":"AAAA"}''
       = Inl UnknownEncryptionFormat
   \<and> nip04DecryptOnly demo_platform (ascii ''01'') ''ab'' ''{"ciphertext":"","iv":"AAAA"}''
       = Inl InvalidCiphertextFormat\<close>
  by (simp add: spec_json_format_def versioned_format_def has_iv_separator_def js_includes_def
      nip04Decrypt_def nip44_attempt_def json_format_def nip04DecryptOnly_def cipher_parts_def
      json_parts_def demo_platform_def demo_json_def demo_base64_def)

end
